theory Spec2Isabelle
  imports Complex_Main "HOL-Library.Word"
begin

section \<open>An asynchronous RCON client: \<^verbatim>\<open>aiomcrcon/client.py\<close>\<close>

text \<open>
  The theory embeds the class \<^verbatim>\<open>Client\<close> of \<^verbatim>\<open>aiomcrcon/client.py\<close>: its
  constructor, \<^verbatim>\<open>connect\<close>, \<^verbatim>\<open>_send_msg\<close>, \<^verbatim>\<open>send_cmd\<close> and \<^verbatim>\<open>close\<close>,
  together with the library functions they call (\<^verbatim>\<open>struct.pack\<close>, \<^verbatim>\<open>struct.unpack\<close>,
  \<^verbatim>\<open>str.encode\<close>, \<^verbatim>\<open>bytes.decode\<close>, \<^verbatim>\<open>re.sub\<close>, \<^verbatim>\<open>StreamReader.read\<close>,
  \<^verbatim>\<open>asyncio.wait_for\<close>).
\<close>

subsection \<open>Values\<close>

type_synonym byte = "8 word"
type_synonym bytes = "byte list"

text \<open>A Python \<^verbatim>\<open>str\<close> is a sequence of code points.\<close>

type_synonym str = "nat list"

text \<open>The clock of the event loop and the timeouts, in seconds.\<close>

type_synonym time = real

datatype error =
    RCONConnectionError string
  | IncorrectPasswordError
  | ClientNotConnectedError
  | ValueError
  | StructError
  | UnicodeEncodeError
  | UnicodeDecodeError
  | TimeoutError
  | NameError
  | AttributeError

text \<open>
  An awaited call returns a value, raises, or never completes (\<open>Hang\<close>): a read with
  no deadline on a connection that stays open and silent.
\<close>

datatype 'a result = Return 'a | Raise error | Hang

text \<open>The argument \<^verbatim>\<open>strip_colors\<close> is dynamically typed.\<close>

datatype pyval = PyBool bool | PyInt int | PyStr str | PyNone

fun truthy :: "pyval \<Rightarrow> bool" where
  "truthy (PyBool b) = b"
| "truthy (PyInt i) = (i \<noteq> 0)"
| "truthy (PyStr s) = (s \<noteq> [])"
| "truthy PyNone = False"

fun isinstance_bool :: "pyval \<Rightarrow> bool" where
  "isinstance_bool (PyBool b) = True"
| "isinstance_bool v = False"

text \<open>A \<^verbatim>\<open>str\<close> literal of ASCII characters.\<close>

definition str_of :: "string \<Rightarrow> str" where
  "str_of s = map of_char s"

subsection \<open>The message types\<close>

definition LOGIN :: int where "LOGIN = 3"
definition COMMAND :: int where "COMMAND = 2"
definition RESPONSE :: int where "RESPONSE = 0"
definition INVALID_AUTH :: int where "INVALID_AUTH = - 1"

subsection \<open>\<^verbatim>\<open>struct.pack\<close> and \<^verbatim>\<open>struct.unpack\<close> with format \<^verbatim>\<open><i\<close>\<close>

text \<open>
  Four bytes, least significant first, of the two's complement of the argument.
  \<^verbatim>\<open>struct.pack\<close> raises \<^verbatim>\<open>struct.error\<close> when the argument does not fit.
\<close>

definition le_bytes :: "int \<Rightarrow> bytes" where
  "le_bytes x =
     [word_of_int x, word_of_int (x div 256), word_of_int (x div 65536),
      word_of_int (x div 16777216)]"

definition pack_i32 :: "int \<Rightarrow> error + bytes" where
  "pack_i32 x =
     (if - 2147483648 \<le> x \<and> x \<le> 2147483647 then Inr (le_bytes x) else Inl StructError)"

text \<open>\<^verbatim>\<open>struct.unpack("<i", b)\<close> raises unless \<^verbatim>\<open>b\<close> has exactly four bytes.\<close>

definition le_int :: "byte \<Rightarrow> byte \<Rightarrow> byte \<Rightarrow> byte \<Rightarrow> int" where
  "le_int b0 b1 b2 b3 =
     (let u = uint b0 + 256 * uint b1 + 65536 * uint b2 + 16777216 * uint b3
      in if u < 2147483648 then u else u - 4294967296)"

fun unpack_i32 :: "bytes \<Rightarrow> error + int" where
  "unpack_i32 [b0, b1, b2, b3] = Inr (le_int b0 b1 b2 b3)"
| "unpack_i32 bs = Inl StructError"

text \<open>\<^verbatim>\<open>struct.pack("<ii", a, b)\<close>: the first argument that does not fit raises.\<close>

definition pack_i32_i32 :: "int \<Rightarrow> int \<Rightarrow> error + bytes" where
  "pack_i32_i32 a b =
     (case pack_i32 a of
        Inl e \<Rightarrow> Inl e
      | Inr x \<Rightarrow> (case pack_i32 b of Inl e \<Rightarrow> Inl e | Inr y \<Rightarrow> Inr (x @ y)))"

text \<open>\<^verbatim>\<open>struct.unpack("<ii", b)\<close> raises unless \<^verbatim>\<open>b\<close> has exactly eight bytes.\<close>

fun unpack_i32_i32 :: "bytes \<Rightarrow> error + int \<times> int" where
  "unpack_i32_i32 [a0, a1, a2, a3, b0, b1, b2, b3] =
     Inr (le_int a0 a1 a2 a3, le_int b0 b1 b2 b3)"
| "unpack_i32_i32 bs = Inl StructError"

subsection \<open>UTF-8\<close>

text \<open>
  \<^verbatim>\<open>str.encode("utf8")\<close>: one to four bytes for each code point; a surrogate
  (\<open>0xD800\<close> to \<open>0xDFFF\<close>) raises \<^verbatim>\<open>UnicodeEncodeError\<close>. A \<^verbatim>\<open>str\<close> holds no code
  point above \<open>0x10FFFF\<close>; the model raises there too.
\<close>

definition utf8_char :: "nat \<Rightarrow> error + bytes" where
  "utf8_char c =
     (if c < 0x80 then Inr [of_nat c]
      else if c < 0x800 then Inr [of_nat (0xC0 + c div 64), of_nat (0x80 + c mod 64)]
      else if 0xD800 \<le> c \<and> c \<le> 0xDFFF then Inl UnicodeEncodeError
      else if c < 0x10000 then
        Inr [of_nat (0xE0 + c div 4096), of_nat (0x80 + c div 64 mod 64),
             of_nat (0x80 + c mod 64)]
      else if c < 0x110000 then
        Inr [of_nat (0xF0 + c div 262144), of_nat (0x80 + c div 4096 mod 64),
             of_nat (0x80 + c div 64 mod 64), of_nat (0x80 + c mod 64)]
      else Inl UnicodeEncodeError)"

fun encode_utf8 :: "str \<Rightarrow> error + bytes" where
  "encode_utf8 [] = Inr []"
| "encode_utf8 (c # cs) =
     (case utf8_char c of
        Inl e \<Rightarrow> Inl e
      | Inr b \<Rightarrow> (case encode_utf8 cs of Inl e \<Rightarrow> Inl e | Inr bs \<Rightarrow> Inr (b @ bs)))"

text \<open>
  \<^verbatim>\<open>bytes.decode("utf8")\<close>, strict: it raises \<^verbatim>\<open>UnicodeDecodeError\<close> on a stray or
  missing continuation byte, an overlong form, a surrogate and a value above \<open>0x10FFFF\<close>.
\<close>

definition cont :: "byte \<Rightarrow> bool" where
  "cont b = (0x80 \<le> unat b \<and> unat b < 0xC0)"

definition push :: "nat \<Rightarrow> error + str \<Rightarrow> error + str" where
  "push c r = (case r of Inl e \<Rightarrow> Inl e | Inr cs \<Rightarrow> Inr (c # cs))"

fun decode_utf8 :: "bytes \<Rightarrow> error + str" where
  "decode_utf8 [] = Inr []"
| "decode_utf8 (b0 # bs) =
     (if unat b0 < 0x80 then push (unat b0) (decode_utf8 bs)
      else if 0xC2 \<le> unat b0 \<and> unat b0 < 0xE0 then
        (case bs of
           b1 # r \<Rightarrow>
             if cont b1
             then push ((unat b0 - 0xC0) * 64 + (unat b1 - 0x80)) (decode_utf8 r)
             else Inl UnicodeDecodeError
         | _ \<Rightarrow> Inl UnicodeDecodeError)
      else if 0xE0 \<le> unat b0 \<and> unat b0 < 0xF0 then
        (case bs of
           b1 # b2 # r \<Rightarrow>
             (let c = (unat b0 - 0xE0) * 4096 + (unat b1 - 0x80) * 64 + (unat b2 - 0x80)
              in if cont b1 \<and> cont b2 \<and> 0x800 \<le> c \<and> \<not> (0xD800 \<le> c \<and> c \<le> 0xDFFF)
                 then push c (decode_utf8 r)
                 else Inl UnicodeDecodeError)
         | _ \<Rightarrow> Inl UnicodeDecodeError)
      else if 0xF0 \<le> unat b0 \<and> unat b0 < 0xF5 then
        (case bs of
           b1 # b2 # b3 # r \<Rightarrow>
             (let c = (unat b0 - 0xF0) * 262144 + (unat b1 - 0x80) * 4096
                      + (unat b2 - 0x80) * 64 + (unat b3 - 0x80)
              in if cont b1 \<and> cont b2 \<and> cont b3 \<and> 0x10000 \<le> c \<and> c < 0x110000
                 then push c (decode_utf8 r)
                 else Inl UnicodeDecodeError)
         | _ \<Rightarrow> Inl UnicodeDecodeError)
      else Inl UnicodeDecodeError)"

subsection \<open>\<^verbatim>\<open>bytes.endswith\<close> and \<^verbatim>\<open>re.sub\<close>\<close>

definition endswith :: "bytes \<Rightarrow> bytes \<Rightarrow> bool" where
  "endswith bs suf =
     (length suf \<le> length bs \<and> drop (length bs - length suf) bs = suf)"

text \<open>
  \<^verbatim>\<open>re.sub("\<section>.", "", s)\<close>: every section sign (\<open>U+00A7\<close>) followed by a character
  other than a line feed is removed with that character, scanning from the left.
\<close>

fun sub_colors :: "str \<Rightarrow> str" where
  "sub_colors [] = []"
| "sub_colors [c] = [c]"
| "sub_colors (c # d # cs) =
     (if c = 0xA7 \<and> d \<noteq> 0x0A then sub_colors cs else c # sub_colors (d # cs))"

subsection \<open>The stream pair of \<^verbatim>\<open>asyncio.open_connection\<close>\<close>

text \<open>
  The reader holds the bytes already received (\<open>buffer\<close>) and the script of what the
  peer will still do (\<open>incoming\<close>): each event is a chunk of data or the end of the
  stream, with the time at which the event loop delivers it. The events are delivered in
  the order of the list, none before the one in front of it. A script that ends without
  \<open>Eof\<close> is a peer that stays connected and silent.
\<close>

datatype event = Data bytes | Eof

record stream_reader =
  buffer :: bytes
  incoming :: "(time \<times> event) list"
  at_eof :: bool

record stream_writer =
  sent :: bytes
  closing :: bool

text \<open>The events delivered by time \<open>now\<close>: the data, whether the stream ended, the rest.\<close>

fun arrive :: "time \<Rightarrow> (time \<times> event) list \<Rightarrow> bytes \<times> bool \<times> (time \<times> event) list" where
  "arrive now [] = ([], False, [])"
| "arrive now ((t, ev) # es) =
     (if now < t then ([], False, (t, ev) # es)
      else case ev of
             Eof \<Rightarrow> ([], True, [])
           | Data c \<Rightarrow> (case arrive now es of (d, e, r) \<Rightarrow> (c @ d, e, r)))"

definition poll :: "time \<Rightarrow> stream_reader \<Rightarrow> stream_reader" where
  "poll now r =
     (case arrive now (incoming r) of
        (d, e, rest) \<Rightarrow>
          r\<lparr>buffer := buffer r @ d, at_eof := at_eof r \<or> e, incoming := rest\<rparr>)"

text \<open>
  \<^verbatim>\<open>_wait_for_data\<close>: the reader sleeps until data (a non-empty chunk) or the end of
  the stream is fed to it. \<^verbatim>\<open>wait_for\<close> cancels the sleep at the deadline.
\<close>

datatype wake = Woken time | TimedOut time | Never

fun wait_for_data :: "time option \<Rightarrow> time \<Rightarrow> (time \<times> event) list \<Rightarrow> wake" where
  "wait_for_data dl now [] = (case dl of None \<Rightarrow> Never | Some d \<Rightarrow> TimedOut d)"
| "wait_for_data dl now ((t, ev) # es) =
     (let t' = max now t;
          go = (if ev = Data [] then wait_for_data dl t' es else Woken t')
      in case dl of
           None \<Rightarrow> go
         | Some d \<Rightarrow> if d \<le> t' then TimedOut d else go)"

text \<open>
  \<^verbatim>\<open>read(n)\<close> with \<open>n < 0\<close> reads block after block until the end of the stream and
  returns them joined.
\<close>

fun read_to_eof :: "time option \<Rightarrow> time \<Rightarrow> (time \<times> event) list
    \<Rightarrow> bytes result \<times> time \<times> (time \<times> event) list" where
  "read_to_eof dl now [] =
     (case dl of None \<Rightarrow> (Hang, now, []) | Some d \<Rightarrow> (Raise TimeoutError, d, []))"
| "read_to_eof dl now ((t, ev) # es) =
     (let t' = max now t;
          go = (case ev of
                  Eof \<Rightarrow> (Return [], t', [])
                | Data c \<Rightarrow>
                    (case read_to_eof dl t' es of
                       (Return d, t'', r) \<Rightarrow> (Return (c @ d), t'', r)
                     | other \<Rightarrow> other))
      in case dl of
           None \<Rightarrow> go
         | Some d \<Rightarrow> if d \<le> t' then (Raise TimeoutError, d, (t, ev) # es) else go)"

text \<open>
  \<^verbatim>\<open>StreamReader.read(n)\<close> at time \<open>now\<close>, under an optional deadline. For \<open>n > 0\<close>
  it waits only while nothing at all is buffered, then returns at most \<open>n\<close> of the
  buffered bytes: fewer than \<open>n\<close> when fewer have arrived, none at the end of the stream.
\<close>

definition read :: "int \<Rightarrow> time option \<Rightarrow> time \<Rightarrow> stream_reader
    \<Rightarrow> bytes result \<times> time \<times> stream_reader" where
  "read n dl now r0 =
     (if n = 0 then (Return [], now, r0)
      else
        let r = poll now r0 in
        if n < 0 then
          (if at_eof r then (Return (buffer r), now, r\<lparr>buffer := []\<rparr>)
           else case read_to_eof dl now (incoming r) of
                  (Return d, t, rest) \<Rightarrow>
                    (Return (buffer r @ d), t, r\<lparr>buffer := [], incoming := rest, at_eof := True\<rparr>)
                | (Raise e, t, rest) \<Rightarrow> (Raise e, t, r\<lparr>buffer := [], incoming := rest\<rparr>)
                | (Hang, t, rest) \<Rightarrow> (Hang, t, r\<lparr>buffer := [], incoming := rest\<rparr>))
        else if buffer r = [] \<and> \<not> at_eof r then
          (case wait_for_data dl now (incoming r) of
             Never \<Rightarrow> (Hang, now, r)
           | TimedOut d \<Rightarrow> (Raise TimeoutError, d, r)
           | Woken t \<Rightarrow>
               (let r' = poll t r
                in (Return (take (nat n) (buffer r')), t,
                    r'\<lparr>buffer := drop (nat n) (buffer r')\<rparr>)))
        else
          (Return (take (nat n) (buffer r)), now, r\<lparr>buffer := drop (nat n) (buffer r)\<rparr>))"

text \<open>
  What \<^verbatim>\<open>asyncio.open_connection\<close> does: it completes after some time with a stream
  pair, or raises.
\<close>

datatype attempt =
    Established stream_reader
  | ConnectTimeout
  | ConnectionRefused
  | ConnectFailed

subsection \<open>The client\<close>

text \<open>
  The fields \<^verbatim>\<open>_reader\<close>, \<^verbatim>\<open>_writer\<close> and \<^verbatim>\<open>_ready\<close> drop their underscore.
  The record carries the clock of the event loop beside the object's fields.
\<close>

record client =
  host :: str
  port :: int
  password :: str
  reader :: "stream_reader option"
  writer :: "stream_writer option"
  ready :: bool
  now :: time

definition init :: "str \<Rightarrow> int \<Rightarrow> str \<Rightarrow> time \<Rightarrow> client" where
  "init h p pw t =
     \<lparr>host = h, port = p, password = pw, reader = None, writer = None, ready = False,
      now = t\<rparr>"

subsection \<open>\<^verbatim>\<open>_send_msg\<close>\<close>

text \<open>Lines 57 to 64: the packet built from the request id, the type and the message.\<close>

definition encode_packet :: "int \<Rightarrow> int \<Rightarrow> str \<Rightarrow> error + bytes" where
  "encode_packet req_id type' msg =
     (case pack_i32_i32 req_id type' of
        Inl e \<Rightarrow> Inl e
      | Inr hdr \<Rightarrow>
          (case encode_utf8 msg of
             Inl e \<Rightarrow> Inl e
           | Inr body \<Rightarrow>
               (let packet_data = hdr @ body @ [0, 0]
                in case pack_i32 (int (length packet_data)) of
                     Inl e \<Rightarrow> Inl e
                   | Inr len \<Rightarrow> Inr (len @ packet_data))))"

text \<open>
  Lines 76 to 88: the check of the terminator, the two header words, the test for
  \<^verbatim>\<open>INVALID_AUTH\<close> and the body \<^verbatim>\<open>in_data[8:-2]\<close>.
\<close>

definition decode_payload :: "bytes \<Rightarrow> (str \<times> int) result" where
  "decode_payload in_data =
     (if \<not> endswith in_data [0, 0] then Raise ValueError
      else case unpack_i32_i32 (take 8 in_data) of
             Inl e \<Rightarrow> Raise e
           | Inr (in_type, in_req_id) \<Rightarrow>
               if in_type = INVALID_AUTH then Raise IncorrectPasswordError
               else case decode_utf8 (drop 8 (take (length in_data - 2) in_data)) of
                      Inl e \<Rightarrow> Raise e
                    | Inr in_msg \<Rightarrow> Return (in_msg, in_type))"

text \<open>
  The whole method. \<open>req_id\<close> is the draw of \<^verbatim>\<open>random.randint(0, 2147483647)\<close>;
  \<open>dl\<close> is the deadline of an enclosing \<^verbatim>\<open>wait_for\<close>, if any. Writing and draining
  take no time.
\<close>

definition send_msg :: "int \<Rightarrow> time option \<Rightarrow> int \<Rightarrow> str \<Rightarrow> client
    \<Rightarrow> (str \<times> int) result \<times> client" where
  "send_msg req_id dl type' msg s =
     (case encode_packet req_id type' msg of
        Inl e \<Rightarrow> (Raise e, s)
      | Inr packet \<Rightarrow>
          (case writer s of
             None \<Rightarrow> (Raise AttributeError, s)
           | Some w \<Rightarrow>
               (let s1 = s\<lparr>writer := Some (w\<lparr>sent := sent w @ packet\<rparr>)\<rparr>
                in case reader s1 of
                     None \<Rightarrow> (Raise AttributeError, s1)
                   | Some r \<Rightarrow>
                       (case read 4 dl (now s1) r of
                          (Hang, t, r1) \<Rightarrow> (Hang, s1\<lparr>reader := Some r1, now := t\<rparr>)
                        | (Raise e, t, r1) \<Rightarrow> (Raise e, s1\<lparr>reader := Some r1, now := t\<rparr>)
                        | (Return hd4, t, r1) \<Rightarrow>
                            (let s2 = s1\<lparr>reader := Some r1, now := t\<rparr>
                             in case unpack_i32 hd4 of
                                  Inl e \<Rightarrow> (Raise e, s2)
                                | Inr in_len \<Rightarrow>
                                    (case read in_len dl t r1 of
                                       (Hang, t', r2) \<Rightarrow>
                                         (Hang, s2\<lparr>reader := Some r2, now := t'\<rparr>)
                                     | (Raise e, t', r2) \<Rightarrow>
                                         (Raise e, s2\<lparr>reader := Some r2, now := t'\<rparr>)
                                     | (Return in_data, t', r2) \<Rightarrow>
                                         (decode_payload in_data,
                                          s2\<lparr>reader := Some r2, now := t'\<rparr>)))))))"

subsection \<open>\<^verbatim>\<open>connect\<close>, \<^verbatim>\<open>send_cmd\<close> and \<^verbatim>\<open>close\<close>\<close>

text \<open>
  \<open>dur\<close> and \<open>att\<close> say how long \<^verbatim>\<open>open_connection\<close> takes and how it ends.
  \<^verbatim>\<open>wait_for\<close> raises \<^verbatim>\<open>TimeoutError\<close> when the timeout is not positive or the
  call is not over before it. The login exchange that follows runs under no deadline.
\<close>

definition connect :: "time \<Rightarrow> attempt \<Rightarrow> int \<Rightarrow> time \<Rightarrow> client \<Rightarrow> unit result \<times> client" where
  "connect dur att req_id timeout s =
     (if ready s then (Return (), s)
      else if timeout \<le> 0 \<or> timeout \<le> dur then
        (Raise (RCONConnectionError
           ''A timeout occurred whilst attempting to connect to the server.''),
         s\<lparr>now := now s + max 0 timeout\<rparr>)
      else
        (let s0 = s\<lparr>now := now s + max 0 dur\<rparr> in
         case att of
           ConnectTimeout \<Rightarrow>
             (Raise (RCONConnectionError
                ''A timeout occurred whilst attempting to connect to the server.''), s0)
         | ConnectionRefused \<Rightarrow>
             (Raise (RCONConnectionError ''The remote server refused the connection.''), s0)
         | ConnectFailed \<Rightarrow>
             (Raise (RCONConnectionError ''The connection failed for an unknown reason.''),
              s0)
         | Established r \<Rightarrow>
             (let s1 = s0\<lparr>reader := Some r, writer := Some \<lparr>sent = [], closing = False\<rparr>\<rparr>
              in case send_msg req_id None LOGIN (password s1) s1 of
                   (Return v, s2) \<Rightarrow> (Return (), s2\<lparr>ready := True\<rparr>)
                 | (Raise e, s2) \<Rightarrow> (Raise e, s2)
                 | (Hang, s2) \<Rightarrow> (Hang, s2))))"

text \<open>
  \<open>re_bound\<close> says whether the name \<^verbatim>\<open>re\<close> is bound in the module: \<^verbatim>\<open>client.py\<close>
  does not import it, so it is bound only if \<^verbatim>\<open>from .errors import *\<close> brings it.
  Where it is not, evaluating \<^verbatim>\<open>re.sub\<close> raises \<^verbatim>\<open>NameError\<close>.
\<close>

definition send_cmd :: "bool \<Rightarrow> int \<Rightarrow> str \<Rightarrow> time \<Rightarrow> pyval \<Rightarrow> client
    \<Rightarrow> (str \<times> int) result \<times> client" where
  "send_cmd re_bound req_id cmd timeout strip_colors s =
     (if \<not> ready s then (Raise ClientNotConnectedError, s)
      else if timeout \<le> 0 then (Raise TimeoutError, s)
      else case send_msg req_id (Some (now s + timeout)) COMMAND cmd s of
             (Return v, s') \<Rightarrow>
               if isinstance_bool strip_colors \<and> truthy strip_colors then
                 (if re_bound then (Return (sub_colors (fst v), snd v), s')
                  else (Raise NameError, s'))
               else (Return v, s')
           | (Raise e, s') \<Rightarrow> (Raise e, s')
           | (Hang, s') \<Rightarrow> (Hang, s'))"

definition close :: "client \<Rightarrow> unit result \<times> client" where
  "close s =
     (if ready s then
        (case writer s of
           None \<Rightarrow> (Raise AttributeError, s)
         | Some w \<Rightarrow>
             (Return (), s\<lparr>reader := None, writer := None, ready := False\<rparr>))
      else (Return (), s))"

subsection \<open>The peer and the reachable states\<close>

text \<open>
  A well-formed packet as the receive path reads it: the length of what follows, the
  word the client takes for the type, the word it takes for the request id, the body and
  the terminator.
\<close>

definition server_packet :: "int \<Rightarrow> int \<Rightarrow> bytes \<Rightarrow> bytes" where
  "server_packet ty rid body =
     le_bytes (int (length body) + 10) @ le_bytes ty @ le_bytes rid @ body @ [0, 0]"

text \<open>A moment lies before the deadline, if there is one.\<close>

definition before :: "time \<Rightarrow> time option \<Rightarrow> bool" where
  "before t dl = (case dl of None \<Rightarrow> True | Some d \<Rightarrow> t < d)"


subsection \<open>Example sessions\<close>

text \<open>A client constructed at time \<open>0\<close>.\<close>

definition fresh_client :: client where
  "fresh_client = init (str_of ''localhost'') 25575 (str_of ''hunter2'') 0"

text \<open>
  A connected client whose server answers the next command, one second later, with a
  packet of type \<open>0\<close> and the body \<^verbatim>\<open>\<section>aHi\<close> (a colour code before \<^verbatim>\<open>Hi\<close>).
\<close>

definition colored_session :: client where
  "colored_session =
     \<lparr>host = str_of ''localhost'', port = 25575, password = str_of ''hunter2'',
      reader = Some \<lparr>buffer = [],
        incoming = [(1, Data [15,0,0,0, 0,0,0,0, 7,0,0,0, 0xC2,0xA7,0x61,0x48,0x69, 0,0])],
        at_eof = False\<rparr>,
      writer = Some \<lparr>sent = [], closing = False\<rparr>, ready = True, now = 0\<rparr>"



text \<open>
  The reply of the scenario, and a server that accepts the login after one second and
  answers the command after two. \<open>list_server\<close> lays its replies out as the receive
  path reads them, the type first; \<open>wire_order_server\<close> lays them out as the send path
  writes packets, the request id (that of the request, \<open>4\<close> and \<open>9\<close>) first and the
  type \<open>0\<close> second.
\<close>

definition players_online :: string where
  "players_online = ''There are 3 players online''"

definition ascii_bytes :: "string \<Rightarrow> bytes" where
  "ascii_bytes s = map of_char s"

definition wire_order_server :: stream_reader where
  "wire_order_server =
     \<lparr>buffer = [],
      incoming = [(1, Data (server_packet 4 RESPONSE [])),
                  (2, Data (server_packet 9 RESPONSE (map of_char ''There are 3 players online'')))],
      at_eof = False\<rparr>"

definition list_server :: stream_reader where
  "list_server =
     \<lparr>buffer = [],
      incoming = [(1, Data (server_packet RESPONSE 4 [])),
                  (2, Data (server_packet RESPONSE 9 (map of_char ''There are 3 players online'')))],
      at_eof = False\<rparr>"

text \<open>
  Servers that answer the login with a packet of type \<open>-1\<close>, that answer it only
  after five seconds, and that never answer.
\<close>

definition auth_fail_server :: stream_reader where
  "auth_fail_server =
     \<lparr>buffer = [], incoming = [(1, Data (server_packet INVALID_AUTH 4 []))], at_eof = False\<rparr>"

definition slow_server :: stream_reader where
  "slow_server =
     \<lparr>buffer = [], incoming = [(5, Data (server_packet RESPONSE 4 []))], at_eof = False\<rparr>"

definition silent_server :: stream_reader where
  "silent_server = \<lparr>buffer = [], incoming = [], at_eof = False\<rparr>"

text \<open>
  A connected client at time \<open>0\<close> whose server follows the given script; the packet
  that \<^verbatim>\<open>_send_msg\<close> builds for request id \<open>1234\<close>, type \<^verbatim>\<open>COMMAND\<close> and
  \<^verbatim>\<open>help\<close>; and a well-formed reply with the body of the scenario.
\<close>

definition session :: "(time \<times> event) list \<Rightarrow> client" where
  "session evs =
     \<lparr>host = str_of ''localhost'', port = 25575, password = str_of ''hunter2'',
      reader = Some \<lparr>buffer = [], incoming = evs, at_eof = False\<rparr>,
      writer = Some \<lparr>sent = [], closing = False\<rparr>, ready = True, now = 0\<rparr>"

definition help_packet :: bytes where
  "help_packet = [14,0,0,0, 210,4,0,0, 2,0,0,0, 104,101,108,112, 0,0]"

definition players_packet :: bytes where
  "players_packet = server_packet RESPONSE 1234 (map of_char ''There are 3 players online'')"

section \<open>Properties\<close>

subsection \<open>Packing and unpacking\<close>

lemma le_sum_mod:
  "(x::int) mod 256 + 256 * (x div 256 mod 256) + 65536 * (x div 65536 mod 256)
     + 16777216 * (x div 16777216 mod 256) = x mod 4294967296"
proof -
  define q1 where "q1 = x div 256"
  define q2 where "q2 = q1 div 256"
  define q3 where "q3 = q2 div 256"
  define m0 where "m0 = x mod 256"
  define m1 where "m1 = q1 mod 256"
  define m2 where "m2 = q2 mod 256"
  define m3 where "m3 = q3 mod 256"
  have a: "x mod (256 * 16777216) = 256 * (q1 mod 16777216) + m0"
    unfolding q1_def m0_def by (rule zmod_zmult2_eq) simp
  have b: "q1 mod (256 * 65536) = 256 * (q2 mod 65536) + m1"
    unfolding q2_def m1_def by (rule zmod_zmult2_eq) simp
  have c: "q2 mod (256 * 256) = 256 * m3 + m2"
    unfolding q3_def m2_def m3_def by (rule zmod_zmult2_eq) simp
  have d2: "x div (256 * 256) = q2"
    unfolding q2_def q1_def by (rule zdiv_zmult2_eq) simp
  have d3: "x div (65536 * 256) = q3"
    unfolding q3_def q2_def q1_def
    using zdiv_zmult2_eq [of 256 x 256] zdiv_zmult2_eq [of 256 x 65536] by simp
  have e: "x mod 4294967296 = 256 * (256 * (256 * m3 + m2) + m1) + m0"
    using a b c by simp
  have f: "x div 65536 = q2" "x div 16777216 = q3" "x div 256 = q1"
    using d2 d3 q1_def by simp_all
  show ?thesis
    unfolding f e m0_def [symmetric] m1_def [symmetric] m2_def [symmetric] m3_def [symmetric]
    by simp
qed

lemma mod_2_32:
  assumes "- 2147483648 \<le> (x::int)" "x \<le> 2147483647"
  shows "x mod 4294967296 = (if 0 \<le> x then x else x + 4294967296)"
proof (cases "0 \<le> x")
  case True
  then have "x mod 4294967296 = x"
    using assms by (intro mod_pos_pos_trivial) simp_all
  then show ?thesis using True by simp
next
  case False
  have "(x + 4294967296) mod 4294967296 = x + 4294967296"
    using assms False by (intro mod_pos_pos_trivial) simp_all
  then show ?thesis using False by simp
qed

lemma byte_of_int: "uint (word_of_int k :: byte) = k mod 256"
  by (simp add: uint_word_of_int)

lemma le_int_of_int:
  assumes "- 2147483648 \<le> x" "x \<le> 2147483647"
  shows "le_int (word_of_int x) (word_of_int (x div 256)) (word_of_int (x div 65536))
           (word_of_int (x div 16777216)) = x"
proof -
  have "le_int (word_of_int x) (word_of_int (x div 256)) (word_of_int (x div 65536))
          (word_of_int (x div 16777216))
        = (let u = x mod 4294967296 in if u < 2147483648 then u else u - 4294967296)"
    unfolding le_int_def byte_of_int le_sum_mod ..
  also have "\<dots> = x"
    unfolding mod_2_32 [OF assms] Let_def using assms by simp
  finally show ?thesis .
qed

lemma unpack_le_bytes:
  assumes "- 2147483648 \<le> x" "x \<le> 2147483647"
  shows "unpack_i32 (le_bytes x) = Inr x"
  using le_int_of_int [OF assms] by (simp add: le_bytes_def)

lemma length_le_bytes: "length (le_bytes x) = 4"
  by (simp add: le_bytes_def)

subsection \<open>Commands on a client that is not connected\<close>

text \<open>
  Claim C7. \<^verbatim>\<open>send_cmd\<close> on a client that has just been constructed raises
  \<^verbatim>\<open>ClientNotConnectedError\<close> and changes nothing: the client has no writer and no
  reader, before and after, so not a byte is written.
\<close>

theorem send_cmd_before_connect:
  "send_cmd rb rid cmd timeout sc (init h p pw t)
     = (Raise ClientNotConnectedError, init h p pw t)
   \<and> writer (init h p pw t) = None \<and> reader (init h p pw t) = None"
  by (simp add: send_cmd_def init_def)

theorem send_cmd_before_connect_witness:
  "send_cmd True 7 (str_of ''list'') 2 (PyBool True) fresh_client
     = (Raise ClientNotConnectedError, fresh_client)
   \<and> writer fresh_client = None"
  unfolding fresh_client_def
  using send_cmd_before_connect [of True 7 "str_of ''list''" 2 "PyBool True"
      "str_of ''localhost''" 25575 "str_of ''hunter2''" 0]
  by simp

subsection \<open>Colour codes\<close>

text \<open>
  Claim C9. When the exchange of \<^verbatim>\<open>send_cmd\<close> returns a body and a type, the call
  returns them as they are for every value of \<^verbatim>\<open>strip_colors\<close> other than the
  boolean \<^verbatim>\<open>True\<close>, a truthy integer or string included; the colour codes are removed
  (by \<^verbatim>\<open>re.sub\<close>, which needs the name \<^verbatim>\<open>re\<close>) exactly when it is \<^verbatim>\<open>True\<close>.
\<close>

theorem strip_colors_only_for_True:
  assumes "ready s" and "0 < timeout"
    and "send_msg rid (Some (now s + timeout)) COMMAND cmd s = (Return (body, ty), s')"
  shows "send_cmd rb rid cmd timeout sc s =
           (if sc = PyBool True
            then (if rb then Return (sub_colors body, ty) else Raise NameError, s')
            else (Return (body, ty), s'))"
  using assms by (cases sc) (auto simp: send_cmd_def)

theorem strip_colors_only_for_True_witness:
  "fst (send_cmd False 7 (str_of ''list'') 2 (PyInt 1) colored_session)
     = Return ([0xA7, 0x61, 0x48, 0x69], 0)
   \<and> fst (send_cmd True 7 (str_of ''list'') 2 (PyBool True) colored_session)
     = Return ([0x48, 0x69], 0)"
proof -
  let ?m = "send_msg 7 (Some (now colored_session + 2)) COMMAND (str_of ''list'')
              colored_session"
  have "fst ?m = Return ([0xA7, 0x61, 0x48, 0x69], 0)"
    by code_simp
  then have m: "?m = (Return ([0xA7, 0x61, 0x48, 0x69], 0), snd ?m)"
    by (metis prod.collapse)
  have r: "ready colored_session"
    by (simp add: colored_session_def)
  have s: "sub_colors [0xA7, 0x61, 0x48, 0x69] = [0x48, 0x69]"
    by simp
  show ?thesis
    using strip_colors_only_for_True [OF r _ m, of False "PyInt 1"]
      strip_colors_only_for_True [OF r _ m, of True "PyBool True"] s
    by simp
qed

subsection \<open>A ready client has a writer\<close>





subsection \<open>Closing\<close>



subsection \<open>Reading a reply that arrives whole\<close>

lemma arrive_settles: "arrive t0 es = (d, e, rest) \<Longrightarrow> arrive t0 rest = ([], False, rest)"
proof (induction es arbitrary: d e rest)
  case Nil
  then show ?case by simp
next
  case (Cons a es)
  obtain t ev where a: "a = (t, ev)" by (cases a)
  show ?case
  proof (cases "t0 < t")
    case True
    then show ?thesis using Cons.prems a by auto
  next
    case False
    show ?thesis
    proof (cases ev)
      case (Data c)
      obtain d' e' r' where r: "arrive t0 es = (d', e', r')" by (cases "arrive t0 es")
      then have "rest = r'" using Cons.prems a False Data by simp
      then show ?thesis using Cons.IH [OF r] by simp
    next
      case Eof
      then show ?thesis using Cons.prems a False by auto
    qed
  qed
qed

lemma read_first_chunk:
  assumes n: "0 < n"
    and r: "buffer r = []" "\<not> at_eof r" "incoming r = (t, Data c) # es"
    and c: "c \<noteq> []"
    and dl: "before (max t0 t) dl"
    and a: "arrive (max t0 t) es = (d, e, rest)"
  shows "read n dl t0 r =
           (Return (take (nat n) (c @ d)), max t0 t,
            r\<lparr>buffer := drop (nat n) (c @ d), at_eof := e, incoming := rest\<rparr>)"
proof (cases "t0 < t")
  case True
  then have m: "max t0 t = t" by simp
  have p: "poll t0 r = r"
    using True r by (simp add: poll_def)
  have w: "wait_for_data dl t0 ((t, Data c) # es) = Woken t"
    using dl c True by (auto simp: before_def Let_def split: option.splits)
  have q: "poll t r = r\<lparr>buffer := c @ d, at_eof := e, incoming := rest\<rparr>"
    using a r m by (simp add: poll_def)
  show ?thesis
    using n r by (simp add: read_def p w q m Let_def del: wait_for_data.simps)
next
  case False
  then have m: "max t0 t = t0" by simp
  have q: "poll t0 r = r\<lparr>buffer := c @ d, at_eof := e, incoming := rest\<rparr>"
    using a r m False by (simp add: poll_def)
  show ?thesis
    using n c unfolding read_def q m by (simp add: Let_def)
qed

lemma read_settled:
  assumes n: "0 < n" and b: "buffer r \<noteq> []"
    and a: "arrive t0 (incoming r) = ([], False, incoming r)"
  shows "read n dl t0 r =
           (Return (take (nat n) (buffer r)), t0, r\<lparr>buffer := drop (nat n) (buffer r)\<rparr>)"
proof -
  have "poll t0 r = r"
    using a by (simp add: poll_def)
  then show ?thesis
    using n b by (simp add: read_def Let_def)
qed


lemma endswith_append: "endswith (xs @ [0, 0]) [0, 0]"
  by (simp add: endswith_def)

lemma unpack_two_le_bytes:
  assumes "- 2147483648 \<le> a" "a \<le> 2147483647"
  shows "\<exists>x. unpack_i32_i32 (le_bytes a @ le_bytes b) = Inr (a, x)"
  using le_int_of_int [OF assms] by (simp add: le_bytes_def)

lemma decode_server_payload:
  assumes "- 2147483648 \<le> ty" "ty \<le> 2147483647"
  shows "decode_payload (le_bytes ty @ le_bytes i @ body @ [0, 0]) =
           (if ty = INVALID_AUTH then Raise IncorrectPasswordError
            else case decode_utf8 body of Inl e \<Rightarrow> Raise e | Inr m \<Rightarrow> Return (m, ty))"
proof -
  let ?P = "le_bytes ty @ le_bytes i @ body @ [0, 0]"
  have e: "endswith ?P [0, 0]"
    using endswith_append [of "le_bytes ty @ le_bytes i @ body"] by simp
  have t8: "take 8 ?P = le_bytes ty @ le_bytes i"
    by (simp add: length_le_bytes)
  obtain x where u: "unpack_i32_i32 (le_bytes ty @ le_bytes i) = Inr (ty, x)"
    using unpack_two_le_bytes [OF assms] by blast
  have b: "drop 8 (take (length ?P - 2) ?P) = body"
    by (simp add: length_le_bytes)
  show ?thesis
    unfolding decode_payload_def t8 u b using e by simp
qed

lemma send_msg_reply:
  assumes p: "encode_packet rid ty msg = Inr p"
    and w: "writer s = Some w" and r: "reader s = Some r"
    and rr: "buffer r = []" "\<not> at_eof r"
      "incoming r = (t, Data (server_packet ty' i body)) # es"
    and dl: "before (max (now s) t) dl"
    and len: "int (length body) + 10 \<le> 2147483647"
    and a: "arrive (max (now s) t) es = (d, e, rest)"
  shows "send_msg rid dl ty msg s =
           (decode_payload (le_bytes ty' @ le_bytes i @ body @ [0, 0]),
            s\<lparr>writer := Some (w\<lparr>sent := sent w @ p\<rparr>),
              reader := Some (r\<lparr>buffer := d, at_eof := e, incoming := rest\<rparr>),
              now := max (now s) t\<rparr>)"
proof -
  define L where "L = int (length body) + 10"
  define T where "T = max (now s) t"
  define pay where "pay = le_bytes ty' @ le_bytes i @ body @ [0, 0]"
  define r1 where "r1 = r\<lparr>buffer := pay @ d, at_eof := e, incoming := rest\<rparr>"
  have c: "server_packet ty' i body = le_bytes L @ pay"
    by (simp add: server_packet_def L_def pay_def)
  have ne: "server_packet ty' i body \<noteq> []"
    by (simp add: server_packet_def)
  have "read 4 dl (now s) r =
          (Return (take (nat 4) (server_packet ty' i body @ d)), T,
           r\<lparr>buffer := drop (nat 4) (server_packet ty' i body @ d), at_eof := e,
             incoming := rest\<rparr>)"
    unfolding T_def using rr ne dl a by (intro read_first_chunk) simp_all
  then have r1: "read 4 dl (now s) r = (Return (le_bytes L), T, r1)"
    by (simp add: c length_le_bytes r1_def)
  have u: "unpack_i32 (le_bytes L) = Inr L"
    unfolding L_def using len by (intro unpack_le_bytes) simp_all
  have lp: "length pay = nat L"
    by (simp add: length_le_bytes pay_def L_def)
  have tk: "take (nat L) (pay @ d) = pay" "drop (nat L) (pay @ d) = d"
    using lp by (metis append_eq_conv_conj)+
  have b1: "buffer r1 = pay @ d" "incoming r1 = rest"
    by (simp_all add: r1_def)
  have "read L dl T r1 =
          (Return (take (nat L) (buffer r1)), T, r1\<lparr>buffer := drop (nat L) (buffer r1)\<rparr>)"
  proof (rule read_settled)
    show "0 < L" by (simp add: L_def)
    show "buffer r1 \<noteq> []" by (simp add: b1 pay_def)
    show "arrive T (incoming r1) = ([], False, incoming r1)"
      unfolding b1 T_def by (rule arrive_settles [OF a])
  qed
  then have r2: "read L dl T r1 = (Return pay, T, r1\<lparr>buffer := d\<rparr>)"
    unfolding b1 tk .
  have "send_msg rid dl ty msg s =
          (decode_payload pay,
           s\<lparr>writer := Some (w\<lparr>sent := sent w @ p\<rparr>), reader := Some (r1\<lparr>buffer := d\<rparr>),
             now := T\<rparr>)"
    by (simp add: send_msg_def p w r r1 u r2 Let_def)
  then show ?thesis
    by (simp add: pay_def r1_def T_def)
qed

subsection \<open>Login and one command\<close>

lemma encode_packet_ok:
  assumes "encode_utf8 msg = Inr body"
    and "- 2147483648 \<le> rid" "rid \<le> 2147483647"
    and "- 2147483648 \<le> ty" "ty \<le> 2147483647"
    and "int (length body) + 10 \<le> 2147483647"
  shows "encode_packet rid ty msg =
           Inr (le_bytes (int (length body) + 10) @ le_bytes rid @ le_bytes ty @ body @ [0, 0])"
  using assms
  by (simp add: encode_packet_def pack_i32_i32_def pack_i32_def length_le_bytes add.commute)

lemma players_decode: "decode_utf8 (ascii_bytes players_online) = Inr (str_of players_online)"
  by code_simp

lemma players_plain: "sub_colors (str_of players_online) = str_of players_online"
  by code_simp

lemma list_encode: "encode_utf8 (str_of ''list'') = Inr (ascii_bytes ''list'')"
  by code_simp

text \<open>
  Claim C2, on the code. A client that is not ready connects; the server accepts the
  connection in time, answers the login with a packet of type \<open>0\<close> and answers the
  command with a packet of type \<open>0\<close> whose body is \<^verbatim>\<open>There are 3 players online\<close>,
  each arriving whole, the second after the login is over and within the two seconds of
  the default timeout. Then \<^verbatim>\<open>connect\<close> returns and leaves the client ready, and the
  client writes the login packet followed by the command packet. What
  \<^verbatim>\<open>send_cmd("list")\<close> with its default arguments does next depends on the name
  \<^verbatim>\<open>re\<close>: it returns that body with \<open>0\<close> only where the name is bound. The module
  does not import it, and there the call raises \<^verbatim>\<open>NameError\<close> after the exchange.
\<close>

theorem login_then_list:
  assumes nr: "\<not> ready s"
    and pw: "encode_utf8 (password s) = Inr pwb" "int (length pwb) + 10 \<le> 2147483647"
    and ids: "0 \<le> rid1" "rid1 \<le> 2147483647" "0 \<le> rid2" "rid2 \<le> 2147483647"
    and conn: "0 \<le> dur" "dur < timeout"
    and lb: "decode_utf8 lbody = Inr lmsg" "int (length lbody) + 10 \<le> 2147483647"
    and r: "r = \<lparr>buffer = [],
               incoming = (t1, Data (server_packet RESPONSE i1 lbody))
                 # (t2, Data (server_packet RESPONSE i2 (ascii_bytes players_online))) # es,
               at_eof = False\<rparr>"
    and t: "max (now s + dur) t1 < t2" "t2 < max (now s + dur) t1 + 2"
  shows "\<exists>s1 s2 p1 p2.
           connect dur (Established r) rid1 timeout s = (Return (), s1)
         \<and> ready s1
         \<and> send_cmd rb rid2 (str_of ''list'') 2 (PyBool True) s1
             = (if rb then Return (str_of players_online, 0) else Raise NameError, s2)
         \<and> encode_packet rid1 LOGIN (password s) = Inr p1
         \<and> encode_packet rid2 COMMAND (str_of ''list'') = Inr p2
         \<and> map_option sent (writer s2) = Some (p1 @ p2)"
proof -
  define T1 where "T1 = max (now s + dur) t1"
  define es' where "es' = (t2, Data (server_packet RESPONSE i2 (ascii_bytes players_online))) # es"
  define w0 where "w0 = \<lparr>sent = [], closing = False\<rparr>"
  define s0 where "s0 = s\<lparr>now := now s + max 0 dur, reader := Some r, writer := Some w0\<rparr>"
  obtain p1 where p1: "encode_packet rid1 LOGIN (password s) = Inr p1"
    using encode_packet_ok [OF pw(1), of rid1 LOGIN] pw(2) ids by (simp add: LOGIN_def)
  obtain p2 where p2: "encode_packet rid2 COMMAND (str_of ''list'') = Inr p2"
    using encode_packet_ok [OF list_encode, of rid2 COMMAND] ids
    by (simp add: COMMAND_def ascii_bytes_def)
  have now0: "max (now s0) t1 = T1"
    using conn by (simp add: s0_def T1_def)
  have a1: "arrive (max (now s0) t1) es' = ([], False, es')"
    unfolding now0 using t by (simp add: es'_def T1_def)
  define r1 where "r1 = r\<lparr>buffer := [], at_eof := False, incoming := es'\<rparr>"
  define s1 where "s1 = s0\<lparr>writer := Some (w0\<lparr>sent := sent w0 @ p1\<rparr>), reader := Some r1, now := T1\<rparr>"
  have m1: "send_msg rid1 None LOGIN (password s) s0 =
              (decode_payload (le_bytes RESPONSE @ le_bytes i1 @ lbody @ [0, 0]), s1)"
    unfolding s1_def r1_def now0 [symmetric]
  proof (rule send_msg_reply [OF p1 _ _ _ _ _ _ lb(2) a1])
    show "writer s0 = Some w0" by (simp add: s0_def)
    show "reader s0 = Some r" by (simp add: s0_def)
    show "buffer r = []" "\<not> at_eof r" by (simp_all add: r)
    show "incoming r = (t1, Data (server_packet RESPONSE i1 lbody)) # es'"
      by (simp add: r es'_def)
    show "before (max (now s0) t1) None" by (simp add: before_def)
  qed
  have d1: "decode_payload (le_bytes RESPONSE @ le_bytes i1 @ lbody @ [0, 0]) = Return (lmsg, 0)"
    using decode_server_payload [of RESPONSE i1 lbody] lb(1)
    by (simp add: RESPONSE_def INVALID_AUTH_def)
  have c: "connect dur (Established r) rid1 timeout s = (Return (), s1\<lparr>ready := True\<rparr>)"
  proof -
    have "connect dur (Established r) rid1 timeout s =
            (case send_msg rid1 None LOGIN (password s0) s0 of
               (Return v, s2) \<Rightarrow> (Return (), s2\<lparr>ready := True\<rparr>)
             | (Raise e, s2) \<Rightarrow> (Raise e, s2)
             | (Hang, s2) \<Rightarrow> (Hang, s2))"
      using conn nr by (simp add: connect_def Let_def s0_def w0_def)
    moreover have "password s0 = password s"
      by (simp add: s0_def)
    ultimately show ?thesis
      by (simp add: m1 d1)
  qed
  define s1r where "s1r = s1\<lparr>ready := True\<rparr>"
  obtain d e rest where a2: "arrive (max (now s1r) t2) es = (d, e, rest)"
    by (cases "arrive (max (now s1r) t2) es")
  have now1: "now s1r = T1" by (simp add: s1r_def s1_def)
  define w1 where "w1 = w0\<lparr>sent := sent w0 @ p1\<rparr>"
  define s2 where "s2 = s1r\<lparr>writer := Some (w1\<lparr>sent := sent w1 @ p2\<rparr>),
      reader := Some (r1\<lparr>buffer := d, at_eof := e, incoming := rest\<rparr>), now := max (now s1r) t2\<rparr>"
  have lp: "int (length (ascii_bytes players_online)) + 10 \<le> 2147483647"
    by (simp add: ascii_bytes_def players_online_def)
  have m2: "send_msg rid2 (Some (now s1r + 2)) COMMAND (str_of ''list'') s1r =
              (decode_payload (le_bytes RESPONSE @ le_bytes i2 @ ascii_bytes players_online @ [0, 0]), s2)"
    unfolding s2_def
  proof (rule send_msg_reply [OF p2 _ _ _ _ _ _ lp a2])
    show "writer s1r = Some w1" by (simp add: s1r_def s1_def w1_def)
    show "reader s1r = Some r1" by (simp add: s1r_def s1_def)
    show "buffer r1 = []" "\<not> at_eof r1" by (simp_all add: r1_def)
    show "incoming r1 = (t2, Data (server_packet RESPONSE i2 (ascii_bytes players_online))) # es"
      by (simp add: r1_def es'_def)
    show "before (max (now s1r) t2) (Some (now s1r + 2))"
      unfolding now1 using t by (simp add: before_def T1_def)
  qed
  have d2: "decode_payload (le_bytes RESPONSE @ le_bytes i2 @ ascii_bytes players_online @ [0, 0])
              = Return (str_of players_online, 0)"
    using decode_server_payload [of RESPONSE i2 "ascii_bytes players_online"] players_decode
    by (simp add: RESPONSE_def INVALID_AUTH_def)
  have sc: "send_cmd rb rid2 (str_of ''list'') 2 (PyBool True) s1r
              = (if rb then Return (str_of players_online, 0) else Raise NameError, s2)"
    using m2 d2 players_plain by (simp add: send_cmd_def s1r_def)
  have "map_option sent (writer s2) = Some (p1 @ p2)"
    by (simp add: s2_def w1_def w0_def)
  then show ?thesis
    using c sc p1 p2 unfolding s1r_def [symmetric] by (auto simp: s1r_def)
qed


theorem login_then_list_witness:
  "fst (connect 0 (Established list_server) 4 2 fresh_client) = Return ()
   \<and> fst (send_cmd False 9 (str_of ''list'') 2 (PyBool True)
            (snd (connect 0 (Established list_server) 4 2 fresh_client)))
       = Raise NameError
   \<and> fst (send_cmd True 9 (str_of ''list'') 2 (PyBool True)
            (snd (connect 0 (Established list_server) 4 2 fresh_client)))
       = Return (str_of ''There are 3 players online'', 0)
   \<and> fst (send_cmd True 9 (str_of ''list'') 2 (PyBool True)
            (snd (connect 0 (Established wire_order_server) 4 2 fresh_client)))
       = Return (str_of ''There are 3 players online'', 9)"
proof -
  have pw: "encode_utf8 (password fresh_client) = Inr (ascii_bytes ''hunter2'')"
    by code_simp
  have r: "list_server = \<lparr>buffer = [],
             incoming = (1, Data (server_packet RESPONSE 4 []))
               # (2, Data (server_packet RESPONSE 9 (ascii_bytes players_online))) # [],
             at_eof = False\<rparr>"
    by (simp add: list_server_def ascii_bytes_def players_online_def)
  have n: "\<not> ready fresh_client" "now fresh_client = 0"
    by (simp_all add: fresh_client_def init_def)
  have d: "decode_utf8 [] = Inr []"
    by simp
  have w: "fst (send_cmd True 9 (str_of ''list'') 2 (PyBool True)
             (snd (connect 0 (Established wire_order_server) 4 2 fresh_client)))
           = Return (str_of ''There are 3 players online'', 9)"
    by code_simp
  show ?thesis
    using login_then_list [OF n(1) pw _ _ _ _ _ _ _ d _ r, of 4 9 0 2 False]
      login_then_list [OF n(1) pw _ _ _ _ _ _ _ d _ r, of 4 9 0 2 True] n(2) w
    by (auto simp: ascii_bytes_def players_online_def)
qed

subsection \<open>A rejected login\<close>

text \<open>
  Claim C4, as stated, fails: after a login that the server rejects, the writer is
  still there and has not been closed, and \<^verbatim>\<open>close\<close> does not close it either.
\<close>

theorem invalid_auth_open_transport:
  "fst (connect 0 (Established auth_fail_server) 4 2 fresh_client) = Raise IncorrectPasswordError
   \<and> map_option closing (writer (snd (connect 0 (Established auth_fail_server) 4 2 fresh_client)))
       = Some False
   \<and> map_option closing
         (writer (snd (close (snd (connect 0 (Established auth_fail_server) 4 2 fresh_client)))))
       = Some False"
  by code_simp

text \<open>
  Claim C4, amended. When the reply to the login has type \<open>-1\<close>, \<^verbatim>\<open>connect\<close>
  raises \<^verbatim>\<open>IncorrectPasswordError\<close> and leaves the client not ready, and a
  \<^verbatim>\<open>send_cmd\<close> after it raises \<^verbatim>\<open>ClientNotConnectedError\<close>.
\<close>

theorem invalid_auth_login:
  assumes nr: "\<not> ready s"
    and pw: "encode_utf8 (password s) = Inr pwb" "int (length pwb) + 10 \<le> 2147483647"
    and ids: "0 \<le> rid" "rid \<le> 2147483647"
    and conn: "0 \<le> dur" "dur < timeout"
    and lb: "int (length lbody) + 10 \<le> 2147483647"
    and r: "r = \<lparr>buffer = [],
               incoming = (t1, Data (server_packet INVALID_AUTH i1 lbody)) # es,
               at_eof = False\<rparr>"
  shows "\<exists>s1.
           connect dur (Established r) rid timeout s = (Raise IncorrectPasswordError, s1)
         \<and> \<not> ready s1
         \<and> send_cmd rb rid' cmd timeout' sc s1 = (Raise ClientNotConnectedError, s1)"
proof -
  define w0 where "w0 = \<lparr>sent = [], closing = False\<rparr>"
  define s0 where "s0 = s\<lparr>now := now s + max 0 dur, reader := Some r, writer := Some w0\<rparr>"
  obtain p1 where p1: "encode_packet rid LOGIN (password s) = Inr p1"
    using encode_packet_ok [OF pw(1), of rid LOGIN] pw(2) ids by (simp add: LOGIN_def)
  obtain d e rest where a1: "arrive (max (now s0) t1) es = (d, e, rest)"
    by (cases "arrive (max (now s0) t1) es")
  define s1 where "s1 = s0\<lparr>writer := Some (w0\<lparr>sent := sent w0 @ p1\<rparr>),
      reader := Some (r\<lparr>buffer := d, at_eof := e, incoming := rest\<rparr>), now := max (now s0) t1\<rparr>"
  have m1: "send_msg rid None LOGIN (password s) s0 =
              (decode_payload (le_bytes INVALID_AUTH @ le_bytes i1 @ lbody @ [0, 0]), s1)"
    unfolding s1_def
  proof (rule send_msg_reply [OF p1 _ _ _ _ _ _ lb a1])
    show "writer s0 = Some w0" by (simp add: s0_def)
    show "reader s0 = Some r" by (simp add: s0_def)
    show "buffer r = []" "\<not> at_eof r" by (simp_all add: r)
    show "incoming r = (t1, Data (server_packet INVALID_AUTH i1 lbody)) # es"
      by (simp add: r)
    show "before (max (now s0) t1) None" by (simp add: before_def)
  qed
  have d1: "decode_payload (le_bytes INVALID_AUTH @ le_bytes i1 @ lbody @ [0, 0])
              = Raise IncorrectPasswordError"
    using decode_server_payload [of INVALID_AUTH i1 lbody] by (simp add: INVALID_AUTH_def)
  have "connect dur (Established r) rid timeout s =
          (case send_msg rid None LOGIN (password s0) s0 of
             (Return v, s2) \<Rightarrow> (Return (), s2\<lparr>ready := True\<rparr>)
           | (Raise e, s2) \<Rightarrow> (Raise e, s2)
           | (Hang, s2) \<Rightarrow> (Hang, s2))"
    using conn nr by (simp add: connect_def Let_def s0_def w0_def)
  moreover have "password s0 = password s"
    by (simp add: s0_def)
  ultimately have c: "connect dur (Established r) rid timeout s = (Raise IncorrectPasswordError, s1)"
    by (simp add: m1 d1)
  have n1: "\<not> ready s1"
    using nr by (simp add: s1_def s0_def)
  then have "send_cmd rb rid' cmd timeout' sc s1 = (Raise ClientNotConnectedError, s1)"
    by (simp add: send_cmd_def)
  then show ?thesis
    using c n1 by blast
qed

theorem invalid_auth_login_witness:
  "fst (connect 0 (Established auth_fail_server) 4 2 fresh_client) = Raise IncorrectPasswordError
   \<and> \<not> ready (snd (connect 0 (Established auth_fail_server) 4 2 fresh_client))
   \<and> fst (send_cmd True 9 (str_of ''list'') 2 (PyBool True)
            (snd (connect 0 (Established auth_fail_server) 4 2 fresh_client)))
       = Raise ClientNotConnectedError"
proof -
  have pw: "encode_utf8 (password fresh_client) = Inr (ascii_bytes ''hunter2'')"
    by code_simp
  have r: "auth_fail_server = \<lparr>buffer = [],
             incoming = (1, Data (server_packet INVALID_AUTH 4 [])) # [], at_eof = False\<rparr>"
    by (simp add: auth_fail_server_def)
  have n: "\<not> ready fresh_client"
    by (simp add: fresh_client_def init_def)
  show ?thesis
    using invalid_auth_login [OF n pw _ _ _ _ _ _ r, of 4 0 2 True 9 "str_of ''list''" 2 "PyBool True"]
    by (auto simp: ascii_bytes_def)
qed

subsection \<open>The timeout of \<^verbatim>\<open>connect\<close>\<close>

text \<open>
  Claim C5, as stated, fails: with a timeout of two seconds and a connection made at
  once, a reply to the login that comes after five seconds makes \<^verbatim>\<open>connect\<close> return
  at that time, and a server that never replies makes it wait for ever.
\<close>

theorem login_reply_after_timeout:
  "fst (connect 0 (Established slow_server) 4 2 fresh_client) = Return ()
   \<and> now (snd (connect 0 (Established slow_server) 4 2 fresh_client)) = 5
   \<and> fst (connect 0 (Established silent_server) 4 2 fresh_client) = Hang"
  by code_simp

text \<open>
  Claim C5, amended. When the timeout runs out before the connection is made, or the
  attempt itself times out, \<^verbatim>\<open>connect\<close> raises \<^verbatim>\<open>RCONConnectionError\<close> with the
  message of a timeout, and the client stays not ready, its writer untouched.
\<close>

theorem connect_timeout:
  assumes "\<not> ready s" and "timeout \<le> dur \<or> att = ConnectTimeout"
  shows "fst (connect dur att rid timeout s) =
           Raise (RCONConnectionError
             ''A timeout occurred whilst attempting to connect to the server.'')
         \<and> \<not> ready (snd (connect dur att rid timeout s))
         \<and> writer (snd (connect dur att rid timeout s)) = writer s"
  using assms by (auto simp: connect_def Let_def)

theorem connect_timeout_witness:
  "fst (connect 3 (Established list_server) 4 2 fresh_client) =
           Raise (RCONConnectionError
             ''A timeout occurred whilst attempting to connect to the server.'')
   \<and> fst (connect 1 ConnectTimeout 4 2 fresh_client) =
           Raise (RCONConnectionError
             ''A timeout occurred whilst attempting to connect to the server.'')"
proof -
  have n: "\<not> ready fresh_client"
    by (simp add: fresh_client_def init_def)
  show ?thesis
    using connect_timeout [OF n, of 2 3 "Established list_server" 4]
      connect_timeout [OF n, of 2 1 ConnectTimeout 4]
    by simp
qed

subsection \<open>The length prefix\<close>

text \<open>
  Claim C10, as stated, fails: a message that holds a surrogate code point has no
  UTF-8 encoding, and building the packet raises \<^verbatim>\<open>UnicodeEncodeError\<close>.
\<close>

theorem surrogate_not_encoded:
  "encode_packet 1234 COMMAND [0xD800] = Inl UnicodeEncodeError"
  by (simp add: encode_packet_def pack_i32_i32_def pack_i32_def utf8_char_def COMMAND_def)

text \<open>
  Claim C10, amended. For every message that \<^verbatim>\<open>str.encode\<close> accepts, whatever
  bytes its encoding holds, with at most \<open>2\<^sup>3\<^sup>1 - 11\<close> of them, and a request id and a
  type of 32 bits, the packet is built; its first four bytes unpack to the number of
  bytes of the body plus \<open>10\<close>, and the request id, the type, the body and two zero
  bytes follow.
\<close>

theorem encode_packet_length:
  assumes "encode_utf8 msg = Inr body"
    and "int (length body) + 10 \<le> 2147483647"
    and "- 2147483648 \<le> rid" "rid \<le> 2147483647"
    and "- 2147483648 \<le> ty" "ty \<le> 2147483647"
  shows "\<exists>packet.
           encode_packet rid ty msg = Inr packet
         \<and> unpack_i32 (take 4 packet) = Inr (int (length body) + 10)
         \<and> drop 4 packet = le_bytes rid @ le_bytes ty @ body @ [0, 0]"
proof -
  define L where "L = int (length body) + 10"
  define q where "q = le_bytes rid @ le_bytes ty @ body @ [0, 0]"
  have "encode_packet rid ty msg = Inr (le_bytes L @ q)"
    unfolding L_def q_def using assms by (intro encode_packet_ok)
  moreover have "take 4 (le_bytes L @ q) = le_bytes L" "drop 4 (le_bytes L @ q) = q"
    by (simp_all add: length_le_bytes)
  moreover have "unpack_i32 (le_bytes L) = Inr L"
    unfolding L_def using assms(2) by (intro unpack_le_bytes) simp_all
  ultimately show ?thesis
    unfolding L_def [symmetric] q_def [symmetric] by simp
qed

theorem encode_packet_length_witness:
  "encode_packet 1234 COMMAND [0x61, 0, 0, 0x62]
     = Inr [14,0,0,0, 210,4,0,0, 2,0,0,0, 0x61,0,0,0x62, 0,0]
   \<and> unpack_i32 (take 4 [14,0,0,0, 210,4,0,0, 2,0,0,0, 0x61,0,0,0x62, 0,0]) = Inr 14"
proof -
  have e: "encode_utf8 [0x61, 0, 0, 0x62] = Inr [0x61, 0, 0, 0x62]"
    by (simp add: utf8_char_def)
  obtain packet where p: "encode_packet 1234 COMMAND [0x61, 0, 0, 0x62] = Inr packet"
    "unpack_i32 (take 4 packet) = Inr 14"
    using encode_packet_length [OF e, of 1234 COMMAND] by (auto simp: COMMAND_def)
  have "encode_packet 1234 COMMAND [0x61, 0, 0, 0x62]
          = Inr [14,0,0,0, 210,4,0,0, 2,0,0,0, 0x61,0,0,0x62, 0,0]"
    by code_simp
  then show ?thesis
    using p by simp
qed

subsection \<open>Short reads\<close>

text \<open>
  Claim C3, at the input where it fails. The reply to \<^verbatim>\<open>list\<close> declares 36 bytes.
  Delivered whole, it is decoded. Delivered in two segments, the first ending after the
  two header words, the read of 36 bytes returns the 8 bytes that are there, and they
  are parsed: the call returns an empty body. With the first segment ending inside the
  body, the call raises \<^verbatim>\<open>ValueError\<close>, though the packet is well formed.
\<close>

theorem short_read_is_parsed:
  "fst (send_msg 7 None COMMAND (str_of ''list'') (session [(1, Data players_packet)]))
     = Return (str_of ''There are 3 players online'', 0)
   \<and> unpack_i32 (take 4 players_packet) = Inr 36
   \<and> fst (read 36 None 1
        \<lparr>buffer = take 8 (drop 4 players_packet),
         incoming = [(2, Data (drop 12 players_packet))], at_eof = False\<rparr>)
     = Return (take 8 (drop 4 players_packet))
   \<and> fst (send_msg 7 None COMMAND (str_of ''list'')
        (session [(1, Data (take 12 players_packet)), (2, Data (drop 12 players_packet))]))
     = Return ([], 0)
   \<and> fst (send_msg 7 None COMMAND (str_of ''list'')
        (session [(1, Data (take 20 players_packet)), (2, Data (drop 20 players_packet))]))
     = Raise ValueError"
  by code_simp

subsection \<open>Malformed packets\<close>

text \<open>
  Claim C6, as stated, fails: a packet that declares 8 bytes, all zero, is decoded to
  an empty body of type \<open>0\<close>, and one that declares 2 bytes, both zero, raises
  \<^verbatim>\<open>struct.error\<close>, not \<^verbatim>\<open>ValueError\<close>.
\<close>

theorem short_packet_accepted:
  "fst (send_msg 7 None COMMAND (str_of ''list'')
        (session [(1, Data [8,0,0,0, 0,0,0,0, 0,0,0,0])])) = Return ([], 0)
   \<and> fst (send_msg 7 None COMMAND (str_of ''list'')
        (session [(1, Data [2,0,0,0, 0,0])])) = Raise StructError"
  by code_simp

lemma decode_payload_no_terminator:
  "\<not> endswith in_data [0, 0] \<Longrightarrow> decode_payload in_data = Raise ValueError"
  by (simp add: decode_payload_def)

text \<open>
  Claim C6, amended. Whatever the declared length, when what the second read returns
  does not end in two zero bytes, \<^verbatim>\<open>_send_msg\<close> raises \<^verbatim>\<open>ValueError\<close>.
\<close>

theorem missing_terminator:
  assumes "encode_packet rid ty msg = Inr p"
    and "writer s = Some w" and "reader s = Some r"
    and "read 4 dl (now s) r = (Return h, t, r1)"
    and "unpack_i32 h = Inr n"
    and "read n dl t r1 = (Return in_data, t', r2)"
    and "\<not> endswith in_data [0, 0]"
  shows "fst (send_msg rid dl ty msg s) = Raise ValueError"
  using assms by (simp add: send_msg_def Let_def decode_payload_no_terminator)

theorem missing_terminator_witness:
  "fst (send_msg 7 None COMMAND (str_of ''list'')
        (session [(1, Data [10,0,0,0, 0,0,0,0, 7,0,0,0, 65,66])])) = Raise ValueError"
proof -
  let ?s = "session [(1, Data [10,0,0,0, 0,0,0,0, 7,0,0,0, 65,66])]"
  let ?r = "\<lparr>buffer = [], incoming = [(1, Data [10,0,0,0, 0,0,0,0, 7,0,0,0, 65,66])],
             at_eof = False\<rparr>"
  let ?r1 = "\<lparr>buffer = [0,0,0,0, 7,0,0,0, 65,66], incoming = [], at_eof = False\<rparr>"
  let ?r2 = "\<lparr>buffer = [], incoming = [], at_eof = False\<rparr>"
  have p: "encode_packet 7 COMMAND (str_of ''list'')
             = Inr [14,0,0,0, 7,0,0,0, 2,0,0,0, 108,105,115,116, 0,0]"
    by code_simp
  have w: "writer ?s = Some \<lparr>sent = [], closing = False\<rparr>" "reader ?s = Some ?r"
    and n: "now ?s = 0"
    by (simp_all add: session_def)
  have r1: "read 4 None (now ?s) ?r = (Return [10,0,0,0], 1, ?r1)"
    unfolding n by code_simp
  have u: "unpack_i32 [10,0,0,0] = Inr 10"
    by code_simp
  have r2: "read 10 None 1 ?r1 = (Return [0,0,0,0, 7,0,0,0, 65,66], 1, ?r2)"
    by code_simp
  have e: "\<not> endswith [0,0,0,0, 7,0,0,0, 65,66] [0, 0]"
    by code_simp
  show ?thesis
    by (rule missing_terminator [OF p w r1 u r2 e])
qed

subsection \<open>UTF-8: decoding what was encoded\<close>

lemma byte_unat: "v < 256 \<Longrightarrow> unat (of_nat v :: byte) = v"
  by (simp add: unat_of_nat)

lemma decode_one:
  assumes "unat b0 = c" "c < 128"
  shows "decode_utf8 (b0 # bs) = push c (decode_utf8 bs)"
  using assms by simp

lemma decode_two:
  assumes "unat b0 = 192 + x" "unat b1 = 128 + y" "2 \<le> x" "x < 32" "y < 64"
  shows "decode_utf8 (b0 # b1 # bs) = push (x * 64 + y) (decode_utf8 bs)"
  using assms by (simp add: cont_def)

lemma decode_three:
  assumes "unat b0 = 224 + x" "unat b1 = 128 + y" "unat b2 = 128 + z"
    and "x < 16" "y < 64" "z < 64" "2048 \<le> x * 4096 + y * 64 + z"
    and "\<not> (55296 \<le> x * 4096 + y * 64 + z \<and> x * 4096 + y * 64 + z \<le> 57343)"
  shows "decode_utf8 (b0 # b1 # b2 # bs) = push (x * 4096 + y * 64 + z) (decode_utf8 bs)"
  using assms by (simp add: cont_def Let_def)

lemma decode_four:
  assumes "unat b0 = 240 + w" "unat b1 = 128 + x" "unat b2 = 128 + y" "unat b3 = 128 + z"
    and "w < 5" "x < 64" "y < 64" "z < 64" "65536 \<le> w * 262144 + x * 4096 + y * 64 + z"
    and "w * 262144 + x * 4096 + y * 64 + z < 1114112"
  shows "decode_utf8 (b0 # b1 # b2 # b3 # bs)
           = push (w * 262144 + x * 4096 + y * 64 + z) (decode_utf8 bs)"
  using assms by (simp add: cont_def Let_def)


lemma split_64: "(c::nat) = c div 64 * 64 + c mod 64"
  by (rule div_mult_mod_eq [symmetric])

lemma split_4096: "(c::nat) = c div 4096 * 4096 + c div 64 mod 64 * 64 + c mod 64"
proof -
  define a where "a = c div 64"
  define q where "q = a div 64"
  define m1 where "m1 = a mod 64"
  define m0 where "m0 = c mod 64"
  have d: "c div 4096 = q"
    unfolding q_def a_def using div_mult2_eq [of c 64 64] by simp
  have e1: "c = a * 64 + m0"
    unfolding a_def m0_def by (rule split_64)
  have e2: "a = q * 64 + m1"
    unfolding q_def m1_def by (rule split_64)
  have "c = q * 4096 + m1 * 64 + m0"
    using e1 e2 by linarith
  then show ?thesis
    unfolding d a_def [symmetric] m1_def [symmetric] m0_def [symmetric] .
qed

lemma split_262144:
  "(c::nat) = c div 262144 * 262144 + c div 4096 mod 64 * 4096 + c div 64 mod 64 * 64 + c mod 64"
proof -
  define a where "a = c div 4096"
  define q where "q = a div 64"
  define m2 where "m2 = a mod 64"
  define m1 where "m1 = c div 64 mod 64"
  define m0 where "m0 = c mod 64"
  have d: "c div 262144 = q"
    unfolding q_def a_def using div_mult2_eq [of c 4096 64] by simp
  have e1: "c = a * 4096 + m1 * 64 + m0"
    unfolding a_def m1_def m0_def by (rule split_4096)
  have e2: "a = q * 64 + m2"
    unfolding q_def m2_def by (rule split_64)
  have "c = q * 262144 + m2 * 4096 + m1 * 64 + m0"
    using e1 e2 by linarith
  then show ?thesis
    unfolding d a_def [symmetric] m2_def [symmetric] m1_def [symmetric] m0_def [symmetric] .
qed


lemma decode_char:
  assumes "utf8_char c = Inr bc"
  shows "decode_utf8 (bc @ bs) = push c (decode_utf8 bs)"
proof -
  consider (one) "c < 128"
    | (two) "128 \<le> c" "c < 2048"
    | (three) "2048 \<le> c" "c < 65536" "\<not> (55296 \<le> c \<and> c \<le> 57343)"
    | (four) "65536 \<le> c" "c < 1114112"
    | (bad) "(55296 \<le> c \<and> c \<le> 57343) \<or> 1114112 \<le> c"
    by linarith
  then show ?thesis
  proof cases
    case one
    then have bc: "bc = [of_nat c]"
      using assms by (simp add: utf8_char_def)
    have "unat (of_nat c :: byte) = c"
      using one by (intro byte_unat) simp
    then show ?thesis
      unfolding bc using one by (simp only: append_Cons append_Nil decode_one)
  next
    case two
    define x where "x = c div 64"
    define y where "y = c mod 64"
    have bc: "bc = [of_nat (192 + x), of_nat (128 + y)]"
      using assms two by (simp add: utf8_char_def x_def y_def)
    have c: "c = x * 64 + y"
      unfolding x_def y_def by (rule split_64)
    have y: "y < 64"
      unfolding y_def by simp
    have x: "2 \<le> x" "x < 32"
      using two c y by linarith+
    have u: "unat (of_nat (192 + x) :: byte) = 192 + x" "unat (of_nat (128 + y) :: byte) = 128 + y"
      using x y by (intro byte_unat, simp)+
    show ?thesis
      unfolding bc c using decode_two [OF u x y] by (simp only: append_Cons append_Nil)
  next
    case three
    define x where "x = c div 4096"
    define y where "y = c div 64 mod 64"
    define z where "z = c mod 64"
    have bc: "bc = [of_nat (224 + x), of_nat (128 + y), of_nat (128 + z)]"
      using assms three by (simp add: utf8_char_def x_def y_def z_def)
    have c: "c = x * 4096 + y * 64 + z"
      unfolding x_def y_def z_def by (rule split_4096)
    have yz: "y < 64" "z < 64"
      unfolding y_def z_def by simp_all
    have x: "x < 16"
      using three c yz by linarith
    have u: "unat (of_nat (224 + x) :: byte) = 224 + x" "unat (of_nat (128 + y) :: byte) = 128 + y"
        "unat (of_nat (128 + z) :: byte) = 128 + z"
      using x yz by (intro byte_unat, simp)+
    have r: "2048 \<le> x * 4096 + y * 64 + z"
        "\<not> (55296 \<le> x * 4096 + y * 64 + z \<and> x * 4096 + y * 64 + z \<le> 57343)"
      using three unfolding c [symmetric] by simp_all
    show ?thesis
      unfolding bc using decode_three [OF u x yz r] unfolding c [symmetric]
      by (simp only: append_Cons append_Nil)
  next
    case four
    define w where "w = c div 262144"
    define x where "x = c div 4096 mod 64"
    define y where "y = c div 64 mod 64"
    define z where "z = c mod 64"
    have bc: "bc = [of_nat (240 + w), of_nat (128 + x), of_nat (128 + y), of_nat (128 + z)]"
      using assms four by (simp add: utf8_char_def w_def x_def y_def z_def)
    have c: "c = w * 262144 + x * 4096 + y * 64 + z"
      unfolding w_def x_def y_def z_def by (rule split_262144)
    have xyz: "x < 64" "y < 64" "z < 64"
      unfolding x_def y_def z_def by simp_all
    have w: "w < 5"
      using four c xyz by linarith
    have u: "unat (of_nat (240 + w) :: byte) = 240 + w" "unat (of_nat (128 + x) :: byte) = 128 + x"
        "unat (of_nat (128 + y) :: byte) = 128 + y" "unat (of_nat (128 + z) :: byte) = 128 + z"
      using w xyz by (intro byte_unat, simp)+
    have r: "65536 \<le> w * 262144 + x * 4096 + y * 64 + z"
        "w * 262144 + x * 4096 + y * 64 + z < 1114112"
      using four unfolding c [symmetric] by simp_all
    show ?thesis
      unfolding bc using decode_four [OF u w xyz r] unfolding c [symmetric]
      by (simp only: append_Cons append_Nil)
  next
    case bad
    then have "utf8_char c = Inl UnicodeEncodeError"
      by (auto simp: utf8_char_def)
    then show ?thesis
      using assms by simp
  qed
qed

lemma decode_encode_utf8: "encode_utf8 s = Inr b \<Longrightarrow> decode_utf8 b = Inr s"
proof (induction s arbitrary: b)
  case Nil
  then show ?case by simp
next
  case (Cons c cs)
  from Cons.prems obtain bc bs where e: "utf8_char c = Inr bc" "encode_utf8 cs = Inr bs"
      and b: "b = bc @ bs"
    by (auto split: sum.splits)
  show ?case
    unfolding b decode_char [OF e(1)] Cons.IH [OF e(2)] by (simp add: push_def)
qed

subsection \<open>Encoding, then decoding\<close>

lemma encode_packet_Inr:
  assumes "encode_packet rid ty msg = Inr p"
  shows "\<exists>body. encode_utf8 msg = Inr body
           \<and> - 2147483648 \<le> rid \<and> rid \<le> 2147483647
           \<and> - 2147483648 \<le> ty \<and> ty \<le> 2147483647
           \<and> int (length body) + 10 \<le> 2147483647
           \<and> p = server_packet rid ty body"
  using assms
  by (auto simp: encode_packet_def pack_i32_i32_def pack_i32_def Let_def server_packet_def
        length_le_bytes add.commute split: sum.splits if_splits)

text \<open>
  Claim C1, as far as it holds. Whenever the send path builds a packet and the server
  sends that packet back whole, the receive path returns the message unchanged, paired
  with the request id: the packet is written id first and read type first, so the type
  that was sent comes back only when it equals the request id. At request id \<open>1234\<close>,
  type \<^verbatim>\<open>COMMAND\<close> (\<open>2\<close>) and message \<^verbatim>\<open>help\<close> the call returns \<^verbatim>\<open>help\<close> with
  \<open>1234\<close>.
\<close>

theorem roundtrip_returns_request_id:
  assumes p: "encode_packet rid ty msg = Inr p"
    and rid: "0 \<le> rid"
    and w: "writer s = Some w" and r: "reader s = Some r"
    and rr: "buffer r = []" "\<not> at_eof r" "incoming r = (t, Data p) # es"
    and dl: "before (max (now s) t) dl"
  shows "fst (send_msg rid dl ty msg s) = Return (msg, rid)"
proof -
  obtain body where b: "encode_utf8 msg = Inr body"
      and range: "- 2147483648 \<le> rid" "rid \<le> 2147483647"
      and len: "int (length body) + 10 \<le> 2147483647"
      and sp: "p = server_packet rid ty body"
    using encode_packet_Inr [OF p] by blast
  obtain d e rest where a: "arrive (max (now s) t) es = (d, e, rest)"
    by (cases "arrive (max (now s) t) es")
  have "fst (send_msg rid dl ty msg s) = decode_payload (le_bytes rid @ le_bytes ty @ body @ [0, 0])"
    using send_msg_reply [OF p w r rr(1,2) _ dl len a, of rid ty] rr(3) sp by simp
  also have "\<dots> = Return (msg, rid)"
    using decode_server_payload [OF range, of ty body] rid decode_encode_utf8 [OF b]
    by (simp add: INVALID_AUTH_def)
  finally show ?thesis .
qed

theorem roundtrip_returns_request_id_witness:
  "encode_packet 1234 COMMAND (str_of ''help'') = Inr help_packet
   \<and> fst (send_msg 1234 None COMMAND (str_of ''help'') (session [(1, Data help_packet)]))
       = Return (str_of ''help'', 1234)"
proof -
  have p: "encode_packet 1234 COMMAND (str_of ''help'') = Inr help_packet"
    by code_simp
  let ?r = "\<lparr>buffer = [], incoming = [(1, Data help_packet)], at_eof = False\<rparr>"
  have w: "writer (session [(1, Data help_packet)]) = Some \<lparr>sent = [], closing = False\<rparr>"
    and r: "reader (session [(1, Data help_packet)]) = Some ?r"
    by (simp_all add: session_def)
  have "fst (send_msg 1234 None COMMAND (str_of ''help'') (session [(1, Data help_packet)]))
          = Return (str_of ''help'', 1234)"
    by (rule roundtrip_returns_request_id [OF p _ w r]) (simp_all add: before_def)
  then show ?thesis
    using p by simp
qed

subsection \<open>The name \<^verbatim>\<open>re\<close>\<close>

text \<open>
  Where the module does not bind the name \<^verbatim>\<open>re\<close>, a \<^verbatim>\<open>send_cmd\<close> with
  \<^verbatim>\<open>strip_colors=True\<close> whose exchange returns raises \<^verbatim>\<open>NameError\<close>, after the
  exchange.
\<close>

theorem send_cmd_needs_re:
  assumes "ready s" and "0 < timeout"
    and "send_msg rid (Some (now s + timeout)) COMMAND cmd s = (Return v, s')"
  shows "send_cmd False rid cmd timeout (PyBool True) s = (Raise NameError, s')"
  using assms by (simp add: send_cmd_def)

theorem send_cmd_needs_re_witness:
  "fst (send_cmd False 7 (str_of ''list'') 2 (PyBool True) colored_session) = Raise NameError"
proof -
  let ?m = "send_msg 7 (Some (now colored_session + 2)) COMMAND (str_of ''list'')
              colored_session"
  have "fst ?m = Return ([0xA7, 0x61, 0x48, 0x69], 0)"
    by code_simp
  then have m: "?m = (Return ([0xA7, 0x61, 0x48, 0x69], 0), snd ?m)"
    by (metis prod.collapse)
  have r: "ready colored_session"
    by (simp add: colored_session_def)
  show ?thesis
    using send_cmd_needs_re [OF r _ m] by simp
qed

end
